theory Spec2Isabelle
  imports Main "HOL-Library.Sublist"
begin

section \<open>Python values and errors\<close>

text \<open>
  The script \<open>make_docker_images.py\<close> passes around strings, \<open>None\<close>, integers and lists
  of integers. Strings are character lists; every character the script inspects
  (the forbidden characters, the decimal digits, the newline) is ASCII, so membership and
  position of such a character are the same in a byte string and in Python's text.
  The regular expression \<open>\d+\<close> and \<open>int\<close> are modelled for the ASCII digits, and
  \<open>int\<close>/\<open>str\<close> convert numerals of any length.
\<close>

datatype pyval = VNone | VStr string | VInt int | VList "int list"

datatype py_error =
  TypeError | ValueError | UnboundLocalError | FileExistsError

type_synonym 'a result = "py_error + 'a"

text \<open>Characters that cannot be written inside a string literal.\<close>

definition dquote :: char where "dquote = CHR 0x22"
definition bslash :: char where "bslash = CHR 0x5C"
definition nl :: char where "nl = CHR 0x0A"


section \<open>Name validator\<close>

text \<open>
  \<^verbatim>\<open>forbidden_chars_string = "?!@#$%^&* ;<>?|\"\a\b\f\n\r\t\v"\<close>;
  \<open>forbidden_chars\<close> is the list of its characters (the question mark occurs twice).
\<close>

definition forbidden_chars_string :: string where
  "forbidden_chars_string =
     ''?!@#$%^&* ;<>?|'' @
     [dquote, CHR 0x07, CHR 0x08, CHR 0x0C, CHR 0x0A, CHR 0x0D, CHR 0x09, CHR 0x0B]"

definition forbidden_chars :: "char list" where
  "forbidden_chars = forbidden_chars_string"

text \<open>\<open>name.find(c)\<close> for a one-character \<open>c\<close>: the lowest index, or \<open>-1\<close>.\<close>

fun find_char :: "string \<Rightarrow> char \<Rightarrow> int" where
  "find_char [] c = -1"
| "find_char (x # xs) c =
     (if x = c then 0
      else (let r = find_char xs c in if r < 0 then -1 else r + 1))"

text \<open>The loop \<open>for c in forbidden_chars: if name.find(c) >= 0: return False\<close>.\<close>

fun is_proper_name_loop :: "string \<Rightarrow> char list \<Rightarrow> bool" where
  "is_proper_name_loop name [] = True"
| "is_proper_name_loop name (c # cs) =
     (if find_char name c \<ge> 0 then False else is_proper_name_loop name cs)"

fun is_proper_name :: "pyval \<Rightarrow> bool result" where
  "is_proper_name (VStr name) =
     (if name = [] then Inr False else Inr (is_proper_name_loop name forbidden_chars))"
| "is_proper_name _ = Inl TypeError"


section \<open>Build-target record\<close>

record DockerClass =
  recipe_name :: string
  image_name :: string
  recipe :: string

definition DockerClass_init :: DockerClass where
  "DockerClass_init = \<lparr>recipe_name = [], image_name = [], recipe = []\<rparr>"

text \<open>
  A method that assigns to \<open>self\<close> returns its outcome together with the object after
  the call, also when it raises: the object outlives the exception.
\<close>

fun set_recipe_name :: "pyval \<Rightarrow> DockerClass \<Rightarrow> unit result \<times> DockerClass" where
  "set_recipe_name v self =
     (case is_proper_name v of
        Inl e \<Rightarrow> (Inl e, self)
      | Inr True \<Rightarrow>
          (case v of VStr s \<Rightarrow> (Inr (), self\<lparr>recipe_name := s\<rparr>)
                   | _ \<Rightarrow> (Inl TypeError, self))
      | Inr False \<Rightarrow> (Inl ValueError, self))"

fun set_recipe :: "pyval \<Rightarrow> DockerClass \<Rightarrow> unit result \<times> DockerClass" where
  "set_recipe (VStr s) self =
     (if s \<noteq> [] then (Inr (), self\<lparr>recipe := s\<rparr>) else (Inl ValueError, self))"
| "set_recipe _ self = (Inl TypeError, self)"

fun set_image_name :: "pyval \<Rightarrow> DockerClass \<Rightarrow> unit result \<times> DockerClass" where
  "set_image_name v self =
     (case is_proper_name v of
        Inl e \<Rightarrow> (Inl e, self)
      | Inr True \<Rightarrow>
          (case v of VStr s \<Rightarrow> (Inr (), self\<lparr>image_name := s\<rparr>)
                   | _ \<Rightarrow> (Inl TypeError, self))
      | Inr False \<Rightarrow> (Inl ValueError, self))"

text \<open>
  The world outside the process: the files written (\<open>open(name, "w")\<close> truncates and
  writes the whole text) and the lines printed.
\<close>

record world =
  files :: "string \<rightharpoonup> string"
  stdout :: "string list"

definition write_file :: "string \<Rightarrow> string \<Rightarrow> world \<Rightarrow> world" where
  "write_file name text w = w\<lparr>files := (files w)(name \<mapsto> text)\<rparr>"

definition print :: "string \<Rightarrow> world \<Rightarrow> world" where
  "print line w = w\<lparr>stdout := stdout w @ [line]\<rparr>"

fun write_recipe :: "DockerClass \<Rightarrow> world \<Rightarrow> unit result \<times> world" where
  "write_recipe self w =
     (if recipe_name self = [] then (Inl ValueError, w)
      else if recipe self = [] then (Inl ValueError, w)
      else (Inr (), write_file (recipe_name self) (recipe self) w))"

fun get_build_command :: "DockerClass \<Rightarrow> string result" where
  "get_build_command self =
     (if recipe_name self = [] then Inl ValueError
      else if image_name self = [] then Inl ValueError
      else Inr (''docker build --no-cache --pull -t '' @ image_name self @ '' -f '' @
                recipe_name self @ '' .''))"



section \<open>Version-number codec\<close>

definition is_digit :: "char \<Rightarrow> bool" where
  "is_digit c = (c \<in> set ''0123456789'')"

text \<open>
  \<open>re.findall(r'\d+', s)\<close>: scanning from the left, a digit starts a match that takes
  every digit that follows; the scan goes on after the match. Any other character is
  skipped.
\<close>

function findall_digits :: "string \<Rightarrow> string list" where
  "findall_digits [] = []"
| "findall_digits (c # cs) =
     (if is_digit c
      then (c # takeWhile is_digit cs) # findall_digits (dropWhile is_digit cs)
      else findall_digits cs)"
  by pat_completeness auto
termination
  by (relation "measure length") (auto simp: length_dropWhile_le less_Suc_eq_le)

text \<open>\<open>int(x)\<close> on a string of decimal digits.\<close>

definition digit_val :: "char \<Rightarrow> int" where
  "digit_val c = int (of_char c) - 48"

definition int_of_digits :: "string \<Rightarrow> int" where
  "int_of_digits x = foldl (\<lambda>n c. 10 * n + digit_val c) 0 x"

text \<open>\<open>str(n)\<close> on an integer: its decimal numeral, with a minus sign below zero.\<close>

definition digit_char :: "nat \<Rightarrow> char" where
  "digit_char d = ''0123456789'' ! d"

fun str_nat :: "nat \<Rightarrow> string" where
  "str_nat n =
     (if n < 10 then [digit_char n] else str_nat (n div 10) @ [digit_char (n mod 10)])"

declare str_nat.simps [simp del]

definition str_int :: "int \<Rightarrow> string" where
  "str_int i = (if i < 0 then CHR ''-'' # str_nat (nat (- i)) else str_nat (nat i))"

definition split_version_number :: "string \<Rightarrow> int list" where
  "split_version_number input_ver =
     (let string_list = findall_digits input_ver
      in if length string_list = 3 then map int_of_digits string_list else [])"

fun compose_version_number :: "pyval \<Rightarrow> string" where
  "compose_version_number (VList int_list) =
     (if length int_list = 3
      then str_int (int_list ! 0) @ ''.'' @ str_int (int_list ! 1) @ ''.'' @
           str_int (int_list ! 2)
      else [])"
| "compose_version_number _ = []"


section \<open>Library-spec parser\<close>

text \<open>
  \<open>len(mpi_name)\<close> is taken before the type test: it raises a type error on \<open>None\<close> and
  on an integer, and the type test raises one on a list. The version is \<open>None\<close> or the
  list of three integers.
\<close>

fun get_mpi_type_and_version :: "pyval \<Rightarrow> (string \<times> pyval) result" where
  "get_mpi_type_and_version (VStr mpi_name) =
     (if length mpi_name < 5 then Inl ValueError
      else if length mpi_name = 5 then
        (if mpi_name = ''mpich'' then Inr (''mpich'', VNone) else Inl ValueError)
      else if length mpi_name = 6 then Inl ValueError
      else if length mpi_name = 7 then
        (if mpi_name = ''openmpi'' then Inr (''openmpi'', VNone) else Inl ValueError)
      else if take 5 mpi_name = ''mpich'' then
        (let int_ver = split_version_number (drop 6 mpi_name)
         in if length int_ver = 3 then Inr (''mpich'', VList int_ver) else Inl ValueError)
      else if take 7 mpi_name = ''openmpi'' then
        (let int_ver = split_version_number (drop 8 mpi_name)
         in if length int_ver = 3 then Inr (''openmpi'', VList int_ver) else Inl ValueError)
      else Inl ValueError)"
| "get_mpi_type_and_version _ = Inl TypeError"


section \<open>Full build recipe\<close>

definition cmake_cxx_compiler :: string where
  "cmake_cxx_compiler = ''-DCMAKE_CXX_COMPILER=mpicxx''"

definition MPI_COMPILE_FLAGS :: string where
  "MPI_COMPILE_FLAGS = ''-I/usr/local/include -pthread''"

text \<open>
  \<open>nproc\<close> is computed from the number of processors of the host when the script is
  loaded; it is a parameter here. The parameter \<open>image\<close> of the source is \<open>image'\<close>.
\<close>

definition make_big_yandasoft_recipe ::
  "int \<Rightarrow> string \<Rightarrow> string \<Rightarrow> string \<Rightarrow> string result" where
  "make_big_yandasoft_recipe nproc base_image image' git_branch =
     (let cmake_cxx_flags =
            ''-DCMAKE_CXX_FLAGS='' @ [dquote] @ MPI_COMPILE_FLAGS @ [dquote] @
            '' -DCMAKE_BUILD_TYPE=Release -DENABLE_OPENMP=YES''
      in case (if image' = ''yandasoft'' then
                 Inr (''-DBUILD_ANALYSIS=OFF -DBUILD_PIPELINE=OFF -DBUILD_COMPONENTS=OFF '' @
                      ''-DBUILD_SERVICES=OFF'')
               else if image' = ''askapsoft'' then
                 Inr (''-DBUILD_ANALYSIS=ON -DBUILD_PIPELINE=ON -DBUILD_COMPONENTS=ON '' @
                      ''-DBUILD_SERVICES=OFF'')
               else Inl ValueError) of
           Inl e \<Rightarrow> Inl e
         | Inr cmake_build_flags \<Rightarrow>
             if git_branch = ''develop'' \<or> git_branch = ''master'' then
               Inr (''# Build Yandasoft\<newline>'' @
                    ''FROM '' @ base_image @ '' AS build_image \<newline>'' @
                    ''WORKDIR /home\<newline>'' @
                    ''RUN git clone https://gitlab.com/ASKAPSDP/all_yandasoft.git\<newline>'' @
                    ''WORKDIR /home/all_yandasoft\<newline>'' @
                    ''RUN ./git-do clone\<newline>'' @
                    ''RUN ./git-do checkout -b '' @ git_branch @ ''\<newline>'' @
                    ''# To fix version problem, use develop branch in askap-cmake \<newline>'' @
                    ''WORKDIR /home/all_yandasoft/askap-cmake \<newline>'' @
                    ''RUN git checkout develop \<newline>'' @
                    ''WORKDIR /home/all_yandasoft \<newline>'' @
                    ''RUN mkdir build\<newline>'' @
                    ''WORKDIR /home/all_yandasoft/build\<newline>'' @
                    ''RUN cmake '' @ cmake_cxx_compiler @ '' '' @ cmake_cxx_flags @ '' '' @
                      cmake_build_flags @ '' .. '' @ [bslash] @ ''\<newline>'' @
                    ''    && make -j'' @ str_int nproc @ '' '' @ [bslash] @ ''\<newline>'' @
                    ''    && make install\<newline>'')
             else
               Inr (''# Build Yandasoft\<newline>'' @
                    ''FROM '' @ base_image @ '' AS build_image \<newline>'' @
                    ''WORKDIR /home\<newline>'' @
                    ''RUN git clone https://gitlab.com/ASKAPSDP/all_yandasoft.git\<newline>'' @
                    ''WORKDIR /home/all_yandasoft\<newline>'' @
                    ''RUN ./git-do clone\<newline>'' @
                    ''# Workaround for versioning\<newline>'' @
                    ''RUN ./git-do checkout -b release/'' @ git_branch @ ''\<newline>'' @
                    ''RUN ./git-do checkout -b '' @ git_branch @ ''\<newline>'' @
                    ''# To fix version problem, use develop branch in askap-cmake \<newline>'' @
                    ''WORKDIR /home/all_yandasoft/askap-cmake \<newline>'' @
                    ''RUN git checkout develop \<newline>'' @
                    ''WORKDIR /home/all_yandasoft \<newline>'' @
                    ''RUN mkdir build\<newline>'' @
                    ''WORKDIR /home/all_yandasoft/build\<newline>'' @
                    ''RUN cmake '' @ cmake_cxx_compiler @ '' '' @ cmake_cxx_flags @ '' '' @
                      cmake_build_flags @ '' .. '' @ [bslash] @ ''\<newline>'' @
                    ''    && make -j'' @ str_int nproc @ '' '' @ [bslash] @ ''\<newline>'' @
                    ''    && make install\<newline>''))"


section \<open>Batch-file generator\<close>

text \<open>\<open>__file__\<close>, the path of the script, is a parameter.\<close>

definition batch_common_part :: "string \<Rightarrow> string" where
  "batch_common_part script_file =
     ''#!/bin/bash -l\<newline>'' @
     ''## This file is automatically created by '' @ script_file @ ''\<newline>'' @
     ''#SBATCH --ntasks=5\<newline>'' @
     ''##SBATCH --ntasks=305\<newline>'' @
     ''#SBATCH --time=02:00:00\<newline>'' @
     ''#SBATCH --job-name=cimager\<newline>'' @
     ''#SBATCH --export=NONE\<newline>\<newline>'' @
     ''module load singularity/3.5.0\<newline>''"

text \<open>
  The local variable \<open>batch_mpi_part\<close> is bound in two of the three branches only:
  \<open>None\<close> stands for the unbound name, and reading it raises \<open>UnboundLocalError\<close>.
  The test \<open>mpi_ver != None\<close> compares the string returned by
  \<open>compose_version_number\<close> with \<open>None\<close>.
\<close>

definition batch_mpi_part_of :: "string \<Rightarrow> string \<Rightarrow> string option result" where
  "batch_mpi_part_of mpi_type mpi_ver =
     (if mpi_type = ''mpich'' then
        (let module = ''mpich/3.3.0''; image' = ''yandasoft-mpich_latest.sif''
         in Inr (Some (''module load '' @ module @ ''\<newline>\<newline>'' @
                       ''mpirun -n 5 singularity exec '' @ image' @
                       '' cimager -c dirty.in > dirty_${SLURM_JOB_ID}.log\<newline>'')))
      else if mpi_type = ''openmpi'' then
        (if VStr mpi_ver \<noteq> VNone then
           (let module = ''openmpi/'' @ mpi_ver @ ''-ofed45-gcc'';
                image' = ''yandasoft-'' @ mpi_ver @ ''_latest.sif''
            in Inr (Some (''module load '' @ module @ ''\<newline>\<newline>'' @
                          ''mpirun -n 5 -oversubscribe singularity exec '' @ image' @
                          '' cimager -c dirty.in > dirty_${SLURM_JOB_ID}.log\<newline>'')))
         else Inr None)
      else Inl ValueError)"

text \<open>
  \<open>open(batch_file, "w")\<close> truncates the file before the text to write is evaluated, so
  an unbound \<open>batch_mpi_part\<close> would leave an empty file behind.
\<close>

definition make_batch_file ::
  "string \<Rightarrow> string \<Rightarrow> pyval \<Rightarrow> world \<Rightarrow> unit result \<times> world" where
  "make_batch_file script_file machine mpi w =
     (case get_mpi_type_and_version mpi of
        Inl e \<Rightarrow> (Inl e, w)
      | Inr (mpi_type, mpi_num) \<Rightarrow>
          (let mpi_ver = compose_version_number mpi_num
           in case batch_mpi_part_of mpi_type mpi_ver of
                Inl e \<Rightarrow> (Inl e, w)
              | Inr batch_mpi_part \<Rightarrow>
                  (case mpi of
                     VStr mpi_name \<Rightarrow>
                       (let batch_file = ''sample-'' @ machine @ ''-'' @ mpi_name @ ''.sbatch'';
                            w1 = print (''Making batch file: '' @ batch_file) w
                        in case batch_mpi_part of
                             None \<Rightarrow> (Inl UnboundLocalError, write_file batch_file [] w1)
                           | Some part \<Rightarrow>
                               (Inr (),
                                write_file batch_file
                                  (batch_common_part script_file @ part) w1))
                   | _ \<Rightarrow> (Inl TypeError, w))))"


section \<open>Notions of the specification\<close>

text \<open>The forbidden-character set, written out.\<close>

definition forbidden_set :: "char set" where
  "forbidden_set =
     {CHR ''?'', CHR ''!'', CHR ''@'', CHR ''#'', CHR ''$'', CHR ''%'', CHR ''^'',
      CHR ''&'', CHR ''*'', CHR '' '', CHR '';'', CHR ''<'', CHR ''>'', CHR ''|'',
      CHR 0x22, CHR 0x07, CHR 0x08, CHR 0x09, CHR 0x0A, CHR 0x0B, CHR 0x0C, CHR 0x0D}"

text \<open>
  An argument that a setter of the build-target record must refuse, as the specification
  words it: not a string, empty, or holding a forbidden character.
\<close>

definition invalid_argument :: "pyval \<Rightarrow> bool" where
  "invalid_argument v =
     (case v of VStr s \<Rightarrow> s = [] \<or> list_ex (\<lambda>c. c \<in> forbidden_set) s | _ \<Rightarrow> True)"

text \<open>
  A maximal digit run starts at a digit that no digit precedes and takes every digit
  that follows. The runs of a string, from the left:
\<close>

definition run_start :: "string \<Rightarrow> nat \<Rightarrow> bool" where
  "run_start s i = (is_digit (s ! i) \<and> (i = 0 \<or> \<not> is_digit (s ! (i - 1))))"

definition max_digit_runs :: "string \<Rightarrow> string list" where
  "max_digit_runs s =
     map (\<lambda>i. takeWhile is_digit (drop i s)) (filter (run_start s) [0..<length s])"

text \<open>
  The same runs when the string follows a character that is a digit (\<open>p\<close>) or is not:
  after a digit, digits at the front of the string start no run.
\<close>

definition runs_after :: "bool \<Rightarrow> string \<Rightarrow> string list" where
  "runs_after p s =
     map (\<lambda>i. takeWhile is_digit (drop i s))
       (filter (\<lambda>i. is_digit (s ! i) \<and> (if i = 0 then \<not> p else \<not> is_digit (s ! (i - 1))))
          [0..<length s])"

text \<open>The pieces of a string between the occurrences of a separator.\<close>

fun split_on :: "char \<Rightarrow> string \<Rightarrow> string list" where
  "split_on sep [] = [[]]"
| "split_on sep (c # cs) =
     (if c = sep then [] # split_on sep cs
      else (case split_on sep cs of [] \<Rightarrow> [[c]] | l # ls \<Rightarrow> (c # l) # ls))"

text \<open>
  A three-part dotted version string: three non-empty digit strings with a dot between
  them, the shape \<open>\d+\.\d+\.\d+\<close>.
\<close>

definition dotted_triple :: "string \<Rightarrow> bool" where
  "dotted_triple s =
     (let parts = split_on (CHR ''.'') s
      in length parts = 3 \<and> list_all (\<lambda>p. p \<noteq> [] \<and> list_all is_digit p) parts)"

text \<open>A decimal numeral without a superfluous leading zero.\<close>

definition canonical_numeral :: "string \<Rightarrow> bool" where
  "canonical_numeral p =
     (p \<noteq> [] \<and> list_all is_digit p \<and> (length p = 1 \<or> hd p \<noteq> CHR ''0''))"

definition canonical_dotted_triple :: "string \<Rightarrow> bool" where
  "canonical_dotted_triple s =
     (let parts = split_on (CHR ''.'') s
      in length parts = 3 \<and> list_all canonical_numeral parts)"

text \<open>The lines of a text.\<close>

definition lines :: "string \<Rightarrow> string list" where
  "lines s = split_on nl s"


text \<open>
  The lines that the two templates of the full build recipe share: those before the
  checkout step and those after it.
\<close>

definition recipe_head :: "string \<Rightarrow> string list" where
  "recipe_head base_image =
     [''# Build Yandasoft'',
      ''FROM '' @ base_image @ '' AS build_image '',
      ''WORKDIR /home'',
      ''RUN git clone https://gitlab.com/ASKAPSDP/all_yandasoft.git'',
      ''WORKDIR /home/all_yandasoft'',
      ''RUN ./git-do clone'']"

definition build_flags :: "string \<Rightarrow> string" where
  "build_flags image' =
     (if image' = ''yandasoft''
      then ''-DBUILD_ANALYSIS=OFF -DBUILD_PIPELINE=OFF -DBUILD_COMPONENTS=OFF -DBUILD_SERVICES=OFF''
      else ''-DBUILD_ANALYSIS=ON -DBUILD_PIPELINE=ON -DBUILD_COMPONENTS=ON -DBUILD_SERVICES=OFF'')"

definition recipe_tail :: "int \<Rightarrow> string \<Rightarrow> string list" where
  "recipe_tail nproc image' =
     [''# To fix version problem, use develop branch in askap-cmake '',
      ''WORKDIR /home/all_yandasoft/askap-cmake '',
      ''RUN git checkout develop '',
      ''WORKDIR /home/all_yandasoft '',
      ''RUN mkdir build'',
      ''WORKDIR /home/all_yandasoft/build'',
      ''RUN cmake -DCMAKE_CXX_COMPILER=mpicxx -DCMAKE_CXX_FLAGS='' @ [dquote] @
        ''-I/usr/local/include -pthread'' @ [dquote] @
        '' -DCMAKE_BUILD_TYPE=Release -DENABLE_OPENMP=YES '' @ build_flags image' @
        '' .. '' @ [bslash],
      ''    && make -j'' @ str_int nproc @ '' '' @ [bslash],
      ''    && make install'']"


section \<open>Properties of the name validator\<close>

lemma find_char_lower: "- 1 \<le> find_char xs c"
  by (induction xs) (auto simp: Let_def)

lemma find_char_found: "(0 \<le> find_char xs c) = (c \<in> set xs)"
proof (induction xs)
  case Nil
  show ?case by simp
next
  case (Cons x xs)
  have "- 1 \<le> find_char xs c" by (rule find_char_lower)
  with Cons show ?case by (auto simp: Let_def)
qed

lemma is_proper_name_loop_iff:
  "is_proper_name_loop name cs = (set name \<inter> set cs = {})"
  by (induction cs) (auto simp: find_char_found)

lemma set_forbidden_chars: "set forbidden_chars = forbidden_set"
  by (auto simp: forbidden_chars_def forbidden_chars_string_def forbidden_set_def dquote_def)

lemma is_proper_name_str:
  "is_proper_name (VStr s) = Inr (s \<noteq> [] \<and> set s \<inter> forbidden_set = {})"
  by (simp add: is_proper_name_loop_iff set_forbidden_chars)

text \<open>
  Claim C5. \<open>is_proper_name\<close> returns false for the empty string and for every string
  that contains a character of the forbidden set, true for every other non-empty string,
  and raises a type error for every argument that is not a string.
\<close>

theorem is_proper_name_spec:
  "is_proper_name v =
     (case v of
        VStr s \<Rightarrow> Inr (s \<noteq> [] \<and> (\<forall>c \<in> set s. c \<notin> forbidden_set))
      | _ \<Rightarrow> Inl TypeError)"
proof (cases v)
  case (VStr s)
  have "(set s \<inter> forbidden_set = {}) = (\<forall>c \<in> set s. c \<notin> forbidden_set)" by blast
  with VStr show ?thesis by (simp only: is_proper_name_str pyval.case)
qed simp_all

theorem is_proper_name_spec_witness:
  "is_proper_name (VStr '''') = Inr False
   \<and> is_proper_name (VStr ''yandabase:mpich'') = Inr True
   \<and> is_proper_name (VStr ''yanda base'') = Inr False
   \<and> is_proper_name (VStr [CHR ''a'', CHR 0x0A]) = Inr False
   \<and> is_proper_name (VInt 3) = Inl TypeError
   \<and> is_proper_name VNone = Inl TypeError"
  using is_proper_name_spec [of "VStr ''''"]
    is_proper_name_spec [of "VStr ''yandabase:mpich''"]
    is_proper_name_spec [of "VStr ''yanda base''"]
    is_proper_name_spec [of "VStr [CHR ''a'', CHR 0x0A]"]
    is_proper_name_spec [of "VInt 3"]
    is_proper_name_spec [of VNone]
  by (simp add: forbidden_set_def)

section \<open>Properties of the build-target record\<close>

text \<open>
  Claim C7. Whenever the recipe file name and the image name are both set (not empty),
  \<open>get_build_command\<close> returns exactly
  \<open>"docker build --no-cache --pull -t " + image_name + " -f " + recipe_name + " ."\<close>.
\<close>

theorem get_build_command_shape:
  assumes "recipe_name self \<noteq> []" and "image_name self \<noteq> []"
  shows "get_build_command self =
           Inr (''docker build --no-cache --pull -t '' @ image_name self @ '' -f '' @
                recipe_name self @ '' .'')"
  using assms by simp

theorem get_build_command_shape_witness:
  "get_build_command
     \<lparr>recipe_name = ''.gitlab-docker-yandabase-mpich'',
      image_name = ''csirocass/yandabase:mpich'', recipe = ''FROM x''\<rparr> =
   Inr (''docker build --no-cache --pull -t csirocass/yandabase:mpich '' @
        ''-f .gitlab-docker-yandabase-mpich .'')"
  using get_build_command_shape
    [of "\<lparr>recipe_name = ''.gitlab-docker-yandabase-mpich'',
          image_name = ''csirocass/yandabase:mpich'', recipe = ''FROM x''\<rparr>"]
  by simp

text \<open>
  Claim C8. \<open>get_build_command\<close> raises a value error whenever the recipe file name or
  the image name is unset (empty), and \<open>write_recipe\<close> raises a value error, writing
  nothing, whenever the recipe file name or the recipe text is unset. Neither succeeds
  with a missing field.
\<close>

theorem missing_field_raises:
  "(recipe_name self = [] \<or> image_name self = [] \<longrightarrow>
      get_build_command self = Inl ValueError)
   \<and> (recipe_name self = [] \<or> recipe self = [] \<longrightarrow>
      write_recipe self w = (Inl ValueError, w))
   \<and> (get_build_command self = Inr cmd \<longrightarrow>
      recipe_name self \<noteq> [] \<and> image_name self \<noteq> [])
   \<and> (fst (write_recipe self w) = Inr () \<longrightarrow>
      recipe_name self \<noteq> [] \<and> recipe self \<noteq> [])"
  by (auto split: if_splits)

theorem missing_field_raises_witness:
  "get_build_command (DockerClass_init\<lparr>image_name := ''csirocass/yandabase:mpich''\<rparr>) =
     Inl ValueError
   \<and> get_build_command (DockerClass_init\<lparr>recipe_name := ''Dockerfile''\<rparr>) = Inl ValueError
   \<and> write_recipe (DockerClass_init\<lparr>recipe := ''FROM x''\<rparr>) \<lparr>files = Map.empty, stdout = []\<rparr> =
       (Inl ValueError, \<lparr>files = Map.empty, stdout = []\<rparr>)
   \<and> write_recipe (DockerClass_init\<lparr>recipe_name := ''Dockerfile''\<rparr>)
         \<lparr>files = Map.empty, stdout = []\<rparr> =
       (Inl ValueError, \<lparr>files = Map.empty, stdout = []\<rparr>)
   \<and> recipe_name
         \<lparr>recipe_name = ''Dockerfile'', image_name = ''img'', recipe = ''FROM x''\<rparr> \<noteq> []"
  using
    missing_field_raises
      [of "DockerClass_init\<lparr>image_name := ''csirocass/yandabase:mpich''\<rparr>"
          "\<lparr>files = Map.empty, stdout = []\<rparr>" "''x''"]
    missing_field_raises
      [of "DockerClass_init\<lparr>recipe_name := ''Dockerfile''\<rparr>"
          "\<lparr>files = Map.empty, stdout = []\<rparr>" "''x''"]
    missing_field_raises
      [of "DockerClass_init\<lparr>recipe := ''FROM x''\<rparr>"
          "\<lparr>files = Map.empty, stdout = []\<rparr>" "''x''"]
    missing_field_raises
      [of "\<lparr>recipe_name = ''Dockerfile'', image_name = ''img'', recipe = ''FROM x''\<rparr>"
          "\<lparr>files = Map.empty, stdout = []\<rparr>"
          "''docker build --no-cache --pull -t img -f Dockerfile .''"]
  by (simp add: DockerClass_init_def)

lemma is_proper_name_invalid:
  "invalid_argument v \<Longrightarrow>
     is_proper_name v = (case v of VStr s \<Rightarrow> Inr False | _ \<Rightarrow> Inl TypeError)"
  by (cases v)
    (auto simp: invalid_argument_def is_proper_name_loop_iff set_forbidden_chars list_ex_iff)

text \<open>
  Claim C10, as stated: each of \<open>set_recipe_name\<close>, \<open>set_image_name\<close> and
  \<open>set_recipe\<close> raises on an invalid argument (not a string, empty, or holding a
  forbidden character) and leaves the record as it was. It fails for \<open>set_recipe\<close>:
  a recipe text holding a space is invalid in that sense, and \<open>set_recipe\<close> stores it.
\<close>

theorem set_recipe_accepts_forbidden_chars:
  "invalid_argument (VStr ''FROM base'')
   \<and> set_recipe (VStr ''FROM base'') DockerClass_init =
       (Inr (), DockerClass_init\<lparr>recipe := ''FROM base''\<rparr>)
   \<and> DockerClass_init\<lparr>recipe := ''FROM base''\<rparr> \<noteq> DockerClass_init"
  by (simp add: invalid_argument_def forbidden_set_def DockerClass_init_def)

text \<open>
  Claim C10, amended. \<open>set_recipe_name\<close> and \<open>set_image_name\<close> raise on an argument
  that is not a string (a type error), is empty or holds a forbidden character (a value
  error); \<open>set_recipe\<close> raises on an argument that is not a string (a type error) or is
  empty (a value error). A setter that raises leaves every field of the record as it was.
  \<open>set_recipe\<close> does not test for forbidden characters: it succeeds on every non-empty
  text and stores it in the field \<open>recipe\<close>, the other fields staying as they were.
\<close>

theorem setters_atomic:
  "(invalid_argument v \<longrightarrow>
      set_recipe_name v self =
        (Inl (case v of VStr s \<Rightarrow> ValueError | _ \<Rightarrow> TypeError), self)
      \<and> set_image_name v self =
        (Inl (case v of VStr s \<Rightarrow> ValueError | _ \<Rightarrow> TypeError), self))
   \<and> ((case v of VStr s \<Rightarrow> s = [] | _ \<Rightarrow> True) \<longrightarrow>
      set_recipe v self = (Inl (case v of VStr s \<Rightarrow> ValueError | _ \<Rightarrow> TypeError), self))
   \<and> (fst (set_recipe_name v self) \<noteq> Inr () \<longrightarrow> snd (set_recipe_name v self) = self)
   \<and> (fst (set_image_name v self) \<noteq> Inr () \<longrightarrow> snd (set_image_name v self) = self)
   \<and> (fst (set_recipe v self) \<noteq> Inr () \<longrightarrow> snd (set_recipe v self) = self)
   \<and> (t \<noteq> [] \<longrightarrow> set_recipe (VStr t) self = (Inr (), self\<lparr>recipe := t\<rparr>))"
proof -
  have a: "invalid_argument v \<Longrightarrow>
      set_recipe_name v self =
        (Inl (case v of VStr s \<Rightarrow> ValueError | _ \<Rightarrow> TypeError), self)"
    by (cases v) (simp_all add: is_proper_name_invalid del: is_proper_name.simps)
  have b: "invalid_argument v \<Longrightarrow>
      set_image_name v self =
        (Inl (case v of VStr s \<Rightarrow> ValueError | _ \<Rightarrow> TypeError), self)"
    by (cases v) (simp_all add: is_proper_name_invalid del: is_proper_name.simps)
  have c: "(case v of VStr s \<Rightarrow> s = [] | _ \<Rightarrow> True) \<Longrightarrow>
      set_recipe v self = (Inl (case v of VStr s \<Rightarrow> ValueError | _ \<Rightarrow> TypeError), self)"
    by (cases v) simp_all
  have d: "fst (set_recipe_name v self) \<noteq> Inr () \<Longrightarrow> snd (set_recipe_name v self) = self"
    by (cases v) (auto split: sum.splits bool.splits)
  have e: "fst (set_image_name v self) \<noteq> Inr () \<Longrightarrow> snd (set_image_name v self) = self"
    by (cases v) (auto split: sum.splits bool.splits)
  have f: "fst (set_recipe v self) \<noteq> Inr () \<Longrightarrow> snd (set_recipe v self) = self"
    by (cases v) (auto split: if_splits)
  have g: "t \<noteq> [] \<Longrightarrow> set_recipe (VStr t) self = (Inr (), self\<lparr>recipe := t\<rparr>)"
    by simp
  from a b c d e f g show ?thesis by blast
qed

theorem setters_atomic_witness:
  "set_recipe_name (VStr ''my recipe'')
       \<lparr>recipe_name = ''Dockerfile'', image_name = ''csirocass/yandabase:mpich'',
        recipe = ''FROM x''\<rparr> =
     (Inl ValueError,
      \<lparr>recipe_name = ''Dockerfile'', image_name = ''csirocass/yandabase:mpich'',
       recipe = ''FROM x''\<rparr>)
   \<and> set_image_name (VStr ''my recipe'')
       \<lparr>recipe_name = ''Dockerfile'', image_name = ''csirocass/yandabase:mpich'',
        recipe = ''FROM x''\<rparr> =
     (Inl ValueError,
      \<lparr>recipe_name = ''Dockerfile'', image_name = ''csirocass/yandabase:mpich'',
       recipe = ''FROM x''\<rparr>)
   \<and> set_recipe_name (VInt 3)
       \<lparr>recipe_name = ''Dockerfile'', image_name = ''csirocass/yandabase:mpich'',
        recipe = ''FROM x''\<rparr> =
     (Inl TypeError,
      \<lparr>recipe_name = ''Dockerfile'', image_name = ''csirocass/yandabase:mpich'',
       recipe = ''FROM x''\<rparr>)
   \<and> set_image_name VNone
       \<lparr>recipe_name = ''Dockerfile'', image_name = ''csirocass/yandabase:mpich'',
        recipe = ''FROM x''\<rparr> =
     (Inl TypeError,
      \<lparr>recipe_name = ''Dockerfile'', image_name = ''csirocass/yandabase:mpich'',
       recipe = ''FROM x''\<rparr>)
   \<and> set_recipe (VStr '''')
       \<lparr>recipe_name = ''Dockerfile'', image_name = ''csirocass/yandabase:mpich'',
        recipe = ''FROM x''\<rparr> =
     (Inl ValueError,
      \<lparr>recipe_name = ''Dockerfile'', image_name = ''csirocass/yandabase:mpich'',
       recipe = ''FROM x''\<rparr>)
   \<and> set_recipe VNone
       \<lparr>recipe_name = ''Dockerfile'', image_name = ''csirocass/yandabase:mpich'',
        recipe = ''FROM x''\<rparr> =
     (Inl TypeError,
      \<lparr>recipe_name = ''Dockerfile'', image_name = ''csirocass/yandabase:mpich'',
       recipe = ''FROM x''\<rparr>)
   \<and> set_recipe (VStr ''FROM base image'')
       \<lparr>recipe_name = ''Dockerfile'', image_name = ''csirocass/yandabase:mpich'',
        recipe = ''FROM x''\<rparr> =
     (Inr (),
      \<lparr>recipe_name = ''Dockerfile'', image_name = ''csirocass/yandabase:mpich'',
       recipe = ''FROM base image''\<rparr>)"
  using
    setters_atomic
      [where v = "VStr ''my recipe''" and t = "''FROM base image''"
         and self = "\<lparr>recipe_name = ''Dockerfile'',
                       image_name = ''csirocass/yandabase:mpich'', recipe = ''FROM x''\<rparr>"]
    setters_atomic
      [where v = "VInt 3" and t = "''FROM base image''"
         and self = "\<lparr>recipe_name = ''Dockerfile'',
                       image_name = ''csirocass/yandabase:mpich'', recipe = ''FROM x''\<rparr>"]
    setters_atomic
      [where v = VNone and t = "''FROM base image''"
         and self = "\<lparr>recipe_name = ''Dockerfile'',
                       image_name = ''csirocass/yandabase:mpich'', recipe = ''FROM x''\<rparr>"]
    setters_atomic
      [where v = "VStr ''''" and t = "''FROM base image''"
         and self = "\<lparr>recipe_name = ''Dockerfile'',
                       image_name = ''csirocass/yandabase:mpich'', recipe = ''FROM x''\<rparr>"]
  by (simp add: invalid_argument_def forbidden_set_def)

section \<open>Properties of the version-number codec\<close>

lemma is_digit_cases:
  "is_digit c \<Longrightarrow> c = CHR ''0'' \<or> c = CHR ''1'' \<or> c = CHR ''2'' \<or> c = CHR ''3'' \<or> c = CHR ''4''
     \<or> c = CHR ''5'' \<or> c = CHR ''6'' \<or> c = CHR ''7'' \<or> c = CHR ''8'' \<or> c = CHR ''9''"
  by (auto simp: is_digit_def)

lemma digit_val_range: "is_digit c \<Longrightarrow> 0 \<le> digit_val c \<and> digit_val c < 10"
  by (auto dest!: is_digit_cases simp: digit_val_def)

lemma digit_char_val: "is_digit c \<Longrightarrow> digit_char (nat (digit_val c)) = c"
  by (auto dest!: is_digit_cases simp: digit_val_def digit_char_def)

lemma digit_val_zero: "is_digit c \<Longrightarrow> (digit_val c = 0) = (c = CHR ''0'')"
  by (auto dest!: is_digit_cases simp: digit_val_def)

lemma int_of_digits_snoc:
  "int_of_digits (ds @ [c]) = 10 * int_of_digits ds + digit_val c"
  by (simp add: int_of_digits_def)

lemma str_nat_step:
  "d < 10 \<Longrightarrow> str_nat (10 * m + d) = (if m = 0 then [digit_char d] else str_nat m @ [digit_char d])"
  by (subst str_nat.simps) auto

lemma str_int_step:
  assumes "0 \<le> m" and "0 \<le> d" and "d < 10"
  shows "str_int (10 * m + d) =
           (if m = 0 then [digit_char (nat d)] else str_int m @ [digit_char (nat d)])"
proof -
  have "nat (10 * m + d) = 10 * nat m + nat d" using assms by (simp add: nat_add_distrib nat_mult_distrib)
  moreover have "nat d < 10" using assms by simp
  ultimately show ?thesis using assms str_nat_step [of "nat d" "nat m"]
    by (auto simp: str_int_def)
qed

lemma int_of_digits_nonneg: "list_all is_digit ds \<Longrightarrow> 0 \<le> int_of_digits ds"
proof (induction ds rule: rev_induct)
  case Nil
  show ?case by (simp add: int_of_digits_def)
next
  case (snoc c ds)
  then show ?case using digit_val_range [of c] by (simp add: int_of_digits_snoc)
qed

lemma str_int_of_digits_pos:
  "list_all is_digit ds \<Longrightarrow> ds \<noteq> [] \<Longrightarrow> hd ds \<noteq> CHR ''0'' \<Longrightarrow>
     0 < int_of_digits ds \<and> str_int (int_of_digits ds) = ds"
proof (induction ds rule: rev_induct)
  case Nil
  then show ?case by simp
next
  case (snoc c ds)
  have c: "is_digit c" using snoc.prems by simp
  note r = digit_val_range [OF c]
  show ?case
  proof (cases "ds = []")
    case True
    with snoc.prems c have "digit_val c \<noteq> 0" by (simp add: digit_val_zero)
    with r True c show ?thesis
      using str_int_step [of 0 "digit_val c"]
      by (simp add: int_of_digits_snoc digit_char_val int_of_digits_def)
  next
    case False
    with snoc have ih: "0 < int_of_digits ds" "str_int (int_of_digits ds) = ds" by auto
    with r c show ?thesis
      using str_int_step [of "int_of_digits ds" "digit_val c"]
      by (simp add: int_of_digits_snoc digit_char_val)
  qed
qed

lemma str_int_of_digits_canonical:
  assumes "canonical_numeral p"
  shows "str_int (int_of_digits p) = p"
proof (cases "hd p = CHR ''0''")
  case True
  with assms have "p = ''0''" by (cases p) (auto simp: canonical_numeral_def)
  then show ?thesis by (simp add: int_of_digits_def digit_val_def str_int_def str_nat.simps digit_char_def)
next
  case False
  with assms show ?thesis by (simp add: canonical_numeral_def str_int_of_digits_pos)
qed

lemma findall_digits_run:
  assumes "a \<noteq> []" and "list_all is_digit a" and "\<not> is_digit x"
  shows "findall_digits (a @ x # rest) = a # findall_digits rest"
proof -
  from assms obtain c a' where a: "a = c # a'" and c: "is_digit c" and a': "\<forall>y\<in>set a'. is_digit y"
    by (cases a) (auto simp: list_all_iff)
  have "takeWhile is_digit (a' @ x # rest) = a'"
    using a' assms(3) by simp
  moreover have "dropWhile is_digit (a' @ x # rest) = x # rest"
    using a' assms(3) by simp
  ultimately show ?thesis using a c assms(3) by simp
qed

lemma findall_digits_all:
  assumes "a \<noteq> []" and "list_all is_digit a"
  shows "findall_digits a = [a]"
proof -
  from assms obtain c a' where a: "a = c # a'" and c: "is_digit c" and a': "\<forall>y\<in>set a'. is_digit y"
    by (cases a) (auto simp: list_all_iff)
  have t: "takeWhile is_digit a' = a'" using a' by simp
  have d: "dropWhile is_digit a' = []" using a' by simp
  have "findall_digits (c # a') =
          (c # takeWhile is_digit a') # findall_digits (dropWhile is_digit a')"
    using c by simp
  then show ?thesis by (simp only: a t d findall_digits.simps)
qed

lemma split_on_nonempty: "split_on sep s \<noteq> []"
  by (induction s) (auto split: list.splits)

lemma split_on_single: "split_on sep s = [p] \<Longrightarrow> s = p"
proof (induction s arbitrary: p)
  case Nil
  then show ?case by simp
next
  case (Cons c s)
  then show ?case using split_on_nonempty [of sep s]
    by (auto split: if_splits list.splits)
qed

lemma split_on_cons:
  "split_on sep s = p # q # qs \<Longrightarrow> \<exists>rest. s = p @ sep # rest \<and> split_on sep rest = q # qs"
proof (induction s arbitrary: p)
  case Nil
  then show ?case by simp
next
  case (Cons c s)
  show ?case
  proof (cases "c = sep")
    case True
    with Cons.prems show ?thesis by auto
  next
    case False
    with Cons.prems obtain l where l: "split_on sep s = l # q # qs" and p: "p = c # l"
      by (auto split: list.splits)
    from Cons.IH [OF l] p show ?thesis by auto
  qed
qed

lemma split_on_three:
  assumes "split_on sep s = [a, b, c]"
  shows "s = a @ sep # b @ sep # c"
proof -
  from split_on_cons [OF assms] obtain r1 where r1: "s = a @ sep # r1" "split_on sep r1 = [b, c]"
    by blast
  from split_on_cons [OF r1(2)] obtain r2 where r2: "r1 = b @ sep # r2" "split_on sep r2 = [c]"
    by blast
  from split_on_single [OF r2(2)] r1 r2 show ?thesis by simp
qed

lemma findall_digits_dotted:
  assumes "a \<noteq> []" "list_all is_digit a" "b \<noteq> []" "list_all is_digit b"
    "c \<noteq> []" "list_all is_digit c"
  shows "findall_digits (a @ CHR ''.'' # b @ CHR ''.'' # c) = [a, b, c]"
proof -
  have dot: "\<not> is_digit (CHR ''.'')" by (simp add: is_digit_def)
  show ?thesis
    using assms dot by (simp add: findall_digits_run findall_digits_all)
qed

text \<open>
  Claim C2, as stated: for every well-formed three-part dotted version string \<open>s\<close>,
  \<open>compose_version_number (split_version_number s)\<close> is \<open>s\<close>. It fails when a part has
  a leading zero: \<open>int\<close> drops it.
\<close>

theorem compose_split_leading_zero:
  "dotted_triple ''01.2.3''
   \<and> compose_version_number (VList (split_version_number ''01.2.3'')) = ''1.2.3''
   \<and> compose_version_number (VList (split_version_number ''01.2.3'')) \<noteq> ''01.2.3''"
  by (simp add: dotted_triple_def is_digit_def split_version_number_def int_of_digits_def
      digit_val_def str_int_def str_nat.simps digit_char_def)

text \<open>
  Claim C2, amended. For every three-part dotted version string \<open>s\<close> whose parts are
  decimal numerals without a superfluous leading zero,
  \<open>compose_version_number (split_version_number s)\<close> is \<open>s\<close>.
\<close>

theorem compose_split_canonical:
  assumes "canonical_dotted_triple s"
  shows "compose_version_number (VList (split_version_number s)) = s"
proof -
  from assms obtain a b c where parts: "split_on (CHR ''.'') s = [a, b, c]"
    and can: "canonical_numeral a" "canonical_numeral b" "canonical_numeral c"
    by (auto simp: canonical_dotted_triple_def Let_def length_Suc_conv numeral_3_eq_3)
  have s: "s = a @ CHR ''.'' # b @ CHR ''.'' # c" by (rule split_on_three [OF parts])
  have "findall_digits s = [a, b, c]"
    unfolding s using can by (intro findall_digits_dotted) (simp_all add: canonical_numeral_def)
  then show ?thesis
    using can by (simp add: split_version_number_def str_int_of_digits_canonical s)
qed

theorem compose_split_canonical_witness:
  "canonical_dotted_triple ''4.0.10''
   \<and> compose_version_number (VList (split_version_number ''4.0.10'')) = ''4.0.10''"
  using compose_split_canonical [of "''4.0.10''"]
  by (simp add: canonical_dotted_triple_def canonical_numeral_def is_digit_def)

lemma max_digit_runs_after: "max_digit_runs s = runs_after False s"
  unfolding max_digit_runs_def runs_after_def run_start_def
  by (rule arg_cong [where f = "map _"], rule filter_cong) auto

lemma runs_after_Nil: "runs_after p [] = []"
  by (simp add: runs_after_def)

lemma runs_after_Cons:
  "runs_after p (c # cs) =
     (if is_digit c \<and> \<not> p then [takeWhile is_digit (c # cs)] else []) @
     runs_after (is_digit c) cs"
proof -
  let ?Q = "\<lambda>i. is_digit ((c # cs) ! i) \<and>
                (if i = 0 then \<not> p else \<not> is_digit ((c # cs) ! (i - 1)))"
  let ?R = "\<lambda>i. is_digit (cs ! i) \<and>
                (if i = 0 then \<not> is_digit c else \<not> is_digit (cs ! (i - 1)))"
  have upt: "[0..<length (c # cs)] = 0 # map Suc [0..<length cs]"
    by (simp add: upt_conv_Cons map_Suc_upt del: upt_Suc)
  have QR: "?Q (Suc i) = ?R i" for i
    by (cases i) simp_all
  have "filter ?Q (map Suc [0..<length cs]) = map Suc (filter ?R [0..<length cs])"
    unfolding filter_map comp_def QR ..
  then have tail: "map (\<lambda>i. takeWhile is_digit (drop i (c # cs)))
                     (filter ?Q (map Suc [0..<length cs])) = runs_after (is_digit c) cs"
    by (simp add: runs_after_def comp_def)
  have "runs_after p (c # cs) =
          map (\<lambda>i. takeWhile is_digit (drop i (c # cs))) (filter ?Q (0 # map Suc [0..<length cs]))"
    unfolding runs_after_def upt ..
  also have "\<dots> = (if is_digit c \<and> \<not> p then [takeWhile is_digit (c # cs)] else []) @
                   runs_after (is_digit c) cs"
    using tail by simp
  finally show ?thesis .
qed

lemma runs_after_True:
  "runs_after True cs = runs_after False (dropWhile is_digit cs)"
proof (induction cs)
  case Nil
  show ?case by (simp add: runs_after_Nil)
next
  case (Cons c cs)
  show ?case
  proof (cases "is_digit c")
    case True
    with Cons show ?thesis by (simp add: runs_after_Cons)
  next
    case False
    then show ?thesis by (simp add: runs_after_Cons)
  qed
qed

lemma findall_digits_runs_after: "findall_digits s = runs_after False s"
proof (induction s rule: findall_digits.induct)
  case 1
  show ?case by (simp add: runs_after_Nil)
next
  case (2 c cs)
  show ?case
  proof (cases "is_digit c")
    case True
    with 2 show ?thesis by (simp add: runs_after_Cons runs_after_True)
  next
    case False
    with 2 show ?thesis by (simp add: runs_after_Cons)
  qed
qed

lemma findall_digits_max_runs: "findall_digits s = max_digit_runs s"
  by (simp add: findall_digits_runs_after max_digit_runs_after)

text \<open>
  Claim C6. For every string, \<open>split_version_number\<close> returns the empty list whenever
  the number of maximal digit runs of the string is not three, and the three runs as
  integers when it is three.
\<close>

theorem split_version_number_runs:
  "split_version_number s =
     (if length (max_digit_runs s) = 3 then map int_of_digits (max_digit_runs s) else [])"
  by (simp add: split_version_number_def findall_digits_max_runs)

theorem split_version_number_runs_witness:
  "max_digit_runs ''v10.22.3rc'' = [''10'', ''22'', ''3'']
   \<and> split_version_number ''v10.22.3rc'' = [10, 22, 3]
   \<and> max_digit_runs ''1.2'' = [''1'', ''2''] \<and> split_version_number ''1.2'' = []
   \<and> max_digit_runs ''1.2.3.4'' = [''1'', ''2'', ''3'', ''4'']
   \<and> split_version_number ''1.2.3.4'' = []
   \<and> max_digit_runs '''' = [] \<and> split_version_number '''' = []"
  using split_version_number_runs [of "''v10.22.3rc''"]
    split_version_number_runs [of "''1.2''"]
    split_version_number_runs [of "''1.2.3.4''"]
    split_version_number_runs [of "''''"]
  by (simp add: max_digit_runs_def run_start_def is_digit_def upt_conv_Cons
      int_of_digits_def digit_val_def)

section \<open>Properties of the library-spec parser\<close>

lemma length_max_digit_runs_le: "length (max_digit_runs s) \<le> length s"
proof -
  have "length (max_digit_runs s) = length (filter (run_start s) [0..<length s])"
    by (simp add: max_digit_runs_def)
  also have "\<dots> \<le> length [0..<length s]" by (rule length_filter_le)
  finally show ?thesis by simp
qed

lemma split_version_number_length:
  "(length (split_version_number s) = 3) = (length (max_digit_runs s) = 3)"
  by (simp add: split_version_number_def findall_digits_max_runs Let_def)

lemma split_version_number_three:
  "length (max_digit_runs s) = 3 \<Longrightarrow>
     split_version_number s = map int_of_digits (max_digit_runs s)"
  by (simp add: split_version_number_def findall_digits_max_runs Let_def)

lemma get_mpi_long:
  assumes "7 < length s"
  shows "get_mpi_type_and_version (VStr s) =
     (if take 5 s = ''mpich'' then
        (if length (max_digit_runs (drop 6 s)) = 3
         then Inr (''mpich'', VList (map int_of_digits (max_digit_runs (drop 6 s))))
         else Inl ValueError)
      else if take 7 s = ''openmpi'' then
        (if length (max_digit_runs (drop 8 s)) = 3
         then Inr (''openmpi'', VList (map int_of_digits (max_digit_runs (drop 8 s))))
         else Inl ValueError)
      else Inl ValueError)"
  using assms
  by (simp add: Let_def split_version_number_length split_version_number_three)

lemma get_mpi_mpich_suffix:
  assumes "1 < length rest"
  shows "get_mpi_type_and_version (VStr (''mpich'' @ sep # rest)) =
     (if length (max_digit_runs rest) = 3
      then Inr (''mpich'', VList (map int_of_digits (max_digit_runs rest)))
      else Inl ValueError)"
  using assms by (subst get_mpi_long) simp_all

lemma get_mpi_openmpi_suffix:
  "get_mpi_type_and_version (VStr (''openmpi'' @ sep # rest)) =
     (if length (max_digit_runs rest) = 3
      then Inr (''openmpi'', VList (map int_of_digits (max_digit_runs rest)))
      else Inl ValueError)"
  by (subst get_mpi_long) simp_all

lemma get_mpi_mpich_short:
  "length rest \<le> 1 \<Longrightarrow> get_mpi_type_and_version (VStr (''mpich'' @ sep # rest)) = Inl ValueError"
  by (cases rest) auto

lemma decompose_at:
  "n < length s \<Longrightarrow> take n s = p \<Longrightarrow> s = p @ s ! n # drop (Suc n) s"
  using id_take_nth_drop [of n s] by simp

lemma get_mpi_raises:
  "get_mpi_type_and_version (VStr s) = Inl e \<Longrightarrow> e = ValueError"
  by (simp add: Let_def split: if_splits)

text \<open>
  Claim C3. For every string, \<open>get_mpi_type_and_version\<close> follows the length buckets:
  shorter than 5 raises; length 5 returns \<open>("mpich", None)\<close> for \<open>mpich\<close> only and
  raises otherwise; length 6 raises; length 7 returns \<open>("openmpi", None)\<close> for
  \<open>openmpi\<close> only and raises otherwise; longer than 7 returns a family with a version
  exactly when the string is a family name, one character, and a suffix with exactly
  three digit runs, the version being these three integers, and raises for any other
  prefix. Every raise on a string is a value error.
\<close>

theorem get_mpi_type_and_version_buckets:
  "(length s < 5 \<longrightarrow> get_mpi_type_and_version (VStr s) = Inl ValueError)
   \<and> (length s = 5 \<longrightarrow>
        get_mpi_type_and_version (VStr s) =
          (if s = ''mpich'' then Inr (''mpich'', VNone) else Inl ValueError))
   \<and> (length s = 6 \<longrightarrow> get_mpi_type_and_version (VStr s) = Inl ValueError)
   \<and> (length s = 7 \<longrightarrow>
        get_mpi_type_and_version (VStr s) =
          (if s = ''openmpi'' then Inr (''openmpi'', VNone) else Inl ValueError))
   \<and> (7 < length s \<longrightarrow>
        (get_mpi_type_and_version (VStr s) = Inr (fam, ver)) =
          ((fam = ''mpich'' \<or> fam = ''openmpi'') \<and>
           (\<exists>sep suffix. s = fam @ sep # suffix \<and> length (max_digit_runs suffix) = 3 \<and>
              ver = VList (map int_of_digits (max_digit_runs suffix)))))
   \<and> (7 < length s \<longrightarrow> \<not> prefix ''mpich'' s \<longrightarrow> \<not> prefix ''openmpi'' s \<longrightarrow>
        get_mpi_type_and_version (VStr s) = Inl ValueError)
   \<and> (get_mpi_type_and_version (VStr s) = Inl e \<longrightarrow> e = ValueError)"
proof -
  have long: "(get_mpi_type_and_version (VStr s) = Inr (fam, ver)) =
          ((fam = ''mpich'' \<or> fam = ''openmpi'') \<and>
           (\<exists>sep suffix. s = fam @ sep # suffix \<and> length (max_digit_runs suffix) = 3 \<and>
              ver = VList (map int_of_digits (max_digit_runs suffix))))" (is "?L = ?R")
    if len: "7 < length s"
  proof
    assume L: ?L
    show ?R
    proof (cases "take 5 s = ''mpich''")
      case True
      with L len have "fam = ''mpich''" "length (max_digit_runs (drop 6 s)) = 3"
        "ver = VList (map int_of_digits (max_digit_runs (drop 6 s)))"
        by (auto simp: get_mpi_long simp del: get_mpi_type_and_version.simps split: if_splits)
      moreover have "s = ''mpich'' @ s ! 5 # drop 6 s"
        using decompose_at [of 5 s "''mpich''"] len True by simp
      ultimately show ?thesis by blast
    next
      case False
      with L len have o: "take 7 s = ''openmpi''" by (auto simp: get_mpi_long simp del: get_mpi_type_and_version.simps split: if_splits)
      with False L len have "fam = ''openmpi''" "length (max_digit_runs (drop 8 s)) = 3"
        "ver = VList (map int_of_digits (max_digit_runs (drop 8 s)))"
        by (auto simp: get_mpi_long simp del: get_mpi_type_and_version.simps split: if_splits)
      moreover have "s = ''openmpi'' @ s ! 7 # drop 8 s"
        using decompose_at [of 7 s "''openmpi''"] len o by simp
      ultimately show ?thesis by blast
    qed
  next
    assume R: ?R
    then obtain sep suffix where s: "s = fam @ sep # suffix"
      and runs: "length (max_digit_runs suffix) = 3"
      and ver: "ver = VList (map int_of_digits (max_digit_runs suffix))" by blast
    from runs length_max_digit_runs_le [of suffix] have "1 < length suffix" by simp
    then have m: "get_mpi_type_and_version (VStr (''mpich'' @ sep # suffix)) = Inr (''mpich'', ver)"
      using runs ver get_mpi_mpich_suffix [of suffix sep]
      by (simp del: get_mpi_type_and_version.simps)
    have o: "get_mpi_type_and_version (VStr (''openmpi'' @ sep # suffix)) = Inr (''openmpi'', ver)"
      using runs ver get_mpi_openmpi_suffix [of sep suffix]
      by (simp del: get_mpi_type_and_version.simps)
    from R have "fam = ''mpich'' \<or> fam = ''openmpi''" by blast
    then show ?L using m o unfolding s by blast
  qed
  have other: "get_mpi_type_and_version (VStr s) = Inl ValueError"
    if "7 < length s" "\<not> prefix ''mpich'' s" "\<not> prefix ''openmpi'' s"
  proof -
    have "take 5 s \<noteq> ''mpich''" using that(2) by (metis take_is_prefix)
    moreover have "take 7 s \<noteq> ''openmpi''" using that(3) by (metis take_is_prefix)
    ultimately show ?thesis using that(1)
      by (simp add: get_mpi_long del: get_mpi_type_and_version.simps)
  qed
  show ?thesis
  proof (intro conjI impI allI)
    show "get_mpi_type_and_version (VStr s) = Inl ValueError" if "length s < 5"
      using that by simp
    show "get_mpi_type_and_version (VStr s) =
            (if s = ''mpich'' then Inr (''mpich'', VNone) else Inl ValueError)"
      if "length s = 5" using that by simp
    show "get_mpi_type_and_version (VStr s) = Inl ValueError" if "length s = 6"
      using that by simp
    show "get_mpi_type_and_version (VStr s) =
            (if s = ''openmpi'' then Inr (''openmpi'', VNone) else Inl ValueError)"
      if "length s = 7" using that by simp
    show "e = ValueError" if "get_mpi_type_and_version (VStr s) = Inl e"
      using that by (rule get_mpi_raises)
  qed (fact long other)+
qed


theorem get_mpi_type_and_version_buckets_witness:
  "get_mpi_type_and_version (VStr ''ab'') = Inl ValueError
   \<and> get_mpi_type_and_version (VStr ''mpich'') = Inr (''mpich'', VNone)
   \<and> get_mpi_type_and_version (VStr ''abcde'') = Inl ValueError
   \<and> get_mpi_type_and_version (VStr ''mpich-'') = Inl ValueError
   \<and> get_mpi_type_and_version (VStr ''openmpi'') = Inr (''openmpi'', VNone)
   \<and> get_mpi_type_and_version (VStr ''mpich-3'') = Inl ValueError
   \<and> get_mpi_type_and_version (VStr ''mpich-3.3.0'') = Inr (''mpich'', VList [3, 3, 0])
   \<and> get_mpi_type_and_version (VStr ''openmpi-4.0.1'') = Inr (''openmpi'', VList [4, 0, 1])
   \<and> get_mpi_type_and_version (VStr ''lam-mpi-7.1.4'') = Inl ValueError"
  using get_mpi_type_and_version_buckets [of "''ab''" "''mpich''" VNone ValueError]
    get_mpi_type_and_version_buckets [of "''mpich''" "''mpich''" VNone ValueError]
    get_mpi_type_and_version_buckets [of "''abcde''" "''mpich''" VNone ValueError]
    get_mpi_type_and_version_buckets [of "''mpich-''" "''mpich''" VNone ValueError]
    get_mpi_type_and_version_buckets [of "''openmpi''" "''openmpi''" VNone ValueError]
    get_mpi_type_and_version_buckets [of "''mpich-3''" "''mpich''" VNone ValueError]
    get_mpi_type_and_version_buckets
      [of "''mpich-3.3.0''" "''mpich''" "VList [3, 3, 0]" ValueError]
    get_mpi_type_and_version_buckets
      [of "''openmpi-4.0.1''" "''openmpi''" "VList [4, 0, 1]" ValueError]
    get_mpi_type_and_version_buckets [of "''lam-mpi-7.1.4''" "''mpich''" VNone ValueError]
  by (simp add: max_digit_runs_def run_start_def is_digit_def upt_conv_Cons
      int_of_digits_def digit_val_def split_version_number_def)

text \<open>
  Claim C9. The character between the family name and the version suffix is never
  looked at: the outcome is the same for every character at index 5 after \<open>mpich\<close> and
  at index 7 after \<open>openmpi\<close>, and whenever the characters after it hold exactly three
  digit runs the input is accepted with these runs as the version.
\<close>

theorem separator_not_inspected:
  "get_mpi_type_and_version (VStr (''mpich'' @ sep # rest)) =
     get_mpi_type_and_version (VStr (''mpich'' @ sep' # rest))
   \<and> get_mpi_type_and_version (VStr (''openmpi'' @ sep # rest)) =
     get_mpi_type_and_version (VStr (''openmpi'' @ sep' # rest))
   \<and> (length (max_digit_runs rest) = 3 \<longrightarrow>
        get_mpi_type_and_version (VStr (''mpich'' @ sep # rest)) =
          Inr (''mpich'', VList (map int_of_digits (max_digit_runs rest)))
        \<and> get_mpi_type_and_version (VStr (''openmpi'' @ sep # rest)) =
          Inr (''openmpi'', VList (map int_of_digits (max_digit_runs rest))))"
proof (intro conjI impI)
  show "get_mpi_type_and_version (VStr (''mpich'' @ sep # rest)) =
          get_mpi_type_and_version (VStr (''mpich'' @ sep' # rest))"
  proof (cases "1 < length rest")
    case True
    then show ?thesis by (simp only: get_mpi_mpich_suffix)
  next
    case False
    then have "length rest \<le> 1" by simp
    then show ?thesis by (simp only: get_mpi_mpich_short)
  qed
  show "get_mpi_type_and_version (VStr (''openmpi'' @ sep # rest)) =
          get_mpi_type_and_version (VStr (''openmpi'' @ sep' # rest))"
    by (simp only: get_mpi_openmpi_suffix)
next
  assume runs: "length (max_digit_runs rest) = 3"
  with length_max_digit_runs_le [of rest] have len: "1 < length rest" by simp
  show "get_mpi_type_and_version (VStr (''mpich'' @ sep # rest)) =
          Inr (''mpich'', VList (map int_of_digits (max_digit_runs rest)))"
    using runs get_mpi_mpich_suffix [OF len, of sep]
    by (simp del: get_mpi_type_and_version.simps)
  show "get_mpi_type_and_version (VStr (''openmpi'' @ sep # rest)) =
          Inr (''openmpi'', VList (map int_of_digits (max_digit_runs rest)))"
    using runs get_mpi_openmpi_suffix [of sep rest]
    by (simp del: get_mpi_type_and_version.simps)
qed

theorem separator_not_inspected_witness:
  "length (max_digit_runs ''1.2.3'') = 3
   \<and> get_mpi_type_and_version (VStr ''mpichX1.2.3'') = Inr (''mpich'', VList [1, 2, 3])
   \<and> get_mpi_type_and_version (VStr ''mpich91.2.3'') = Inr (''mpich'', VList [1, 2, 3])
   \<and> get_mpi_type_and_version (VStr ''openmpi_1.2.3'') = Inr (''openmpi'', VList [1, 2, 3])"
  using separator_not_inspected [of "CHR ''X''" "''1.2.3''" "CHR ''-''"]
    separator_not_inspected [of "CHR ''9''" "''1.2.3''" "CHR ''-''"]
    separator_not_inspected [of "CHR ''_''" "''1.2.3''" "CHR ''-''"]
  by (simp add: max_digit_runs_def run_start_def is_digit_def upt_conv_Cons
      int_of_digits_def digit_val_def split_version_number_def)

section \<open>Properties of the full build recipe\<close>

lemma split_on_line:
  "sep \<notin> set a \<Longrightarrow> split_on sep (a @ sep # rest) = a # split_on sep rest"
  by (induction a) auto

lemma lines_unlines:
  "list_all (\<lambda>l. nl \<notin> set l) ls \<Longrightarrow>
     lines (concat (map (\<lambda>l. l @ [nl]) ls)) = ls @ [[]]"
  by (induction ls) (simp_all add: lines_def split_on_line)

lemma set_str_nat: "set (str_nat n) \<subseteq> set ''0123456789''"
proof (induction n rule: str_nat.induct)
  case (1 n)
  have d: "digit_char k \<in> set ''0123456789''" if "k < 10" for k
  proof -
    from that have "k \<in> {0, 1, 2, 3, 4, 5, 6, 7, 8, 9}" by auto
    then show ?thesis by (auto simp: digit_char_def)
  qed
  show ?case
  proof (cases "n < 10")
    case True
    then show ?thesis using d [of n] by (subst str_nat.simps) simp
  next
    case False
    then show ?thesis using 1 d [of "n mod 10"] by (subst str_nat.simps) simp
  qed
qed

lemma nl_str_int: "nl \<notin> set (str_int n)"
  using set_str_nat [of "nat n"] set_str_nat [of "nat (- n)"]
  by (auto simp: str_int_def nl_def)

lemma nl_build_flags: "nl \<notin> set (build_flags i)"
  by (simp add: build_flags_def nl_def)

lemma recipe_normal:
  assumes "image' = ''yandasoft'' \<or> image' = ''askapsoft''"
    and "b = ''develop'' \<or> b = ''master''"
  shows "make_big_yandasoft_recipe nproc base_image image' b =
     Inr (concat (map (\<lambda>l. l @ [nl])
       (recipe_head base_image @ [''RUN ./git-do checkout -b '' @ b] @
        recipe_tail nproc image')))"
  using assms
  by (auto simp: make_big_yandasoft_recipe_def recipe_head_def recipe_tail_def build_flags_def
      cmake_cxx_compiler_def MPI_COMPILE_FLAGS_def nl_def)

lemma recipe_release:
  assumes "image' = ''yandasoft'' \<or> image' = ''askapsoft''"
    and "tag \<noteq> ''develop''" and "tag \<noteq> ''master''"
  shows "make_big_yandasoft_recipe nproc base_image image' tag =
     Inr (concat (map (\<lambda>l. l @ [nl])
       (recipe_head base_image @
        [''# Workaround for versioning'', ''RUN ./git-do checkout -b release/'' @ tag,
         ''RUN ./git-do checkout -b '' @ tag] @
        recipe_tail nproc image')))"
  using assms
  by (auto simp: make_big_yandasoft_recipe_def recipe_head_def recipe_tail_def build_flags_def
      cmake_cxx_compiler_def MPI_COMPILE_FLAGS_def nl_def)


lemma head_tail_lines:
  assumes "nl \<notin> set base_image" and "list_all (\<lambda>l. nl \<notin> set l) mid"
  shows "lines (concat (map (\<lambda>l. l @ [nl])
           (recipe_head base_image @ mid @ recipe_tail nproc image'))) =
         recipe_head base_image @ mid @ recipe_tail nproc image' @ [[]]"
proof -
  have h: "list_all (\<lambda>l. nl \<notin> set l) (recipe_head base_image)"
    using assms(1) by (simp add: recipe_head_def) (simp add: nl_def)
  have t: "list_all (\<lambda>l. nl \<notin> set l) (recipe_tail nproc image')"
    using nl_str_int [of nproc] nl_build_flags [of image']
    by (simp add: recipe_tail_def) (simp add: nl_def dquote_def bslash_def)
  from h t assms(2)
  have "list_all (\<lambda>l. nl \<notin> set l) (recipe_head base_image @ mid @ recipe_tail nproc image')"
    by simp
  from lines_unlines [OF this] show ?thesis by simp
qed

lemma head_tail_no_checkout:
  "\<forall>l \<in> set (recipe_head base_image @ recipe_tail nproc image' @ [[]]).
     \<not> prefix ''RUN ./git-do checkout -b '' l \<and> l \<noteq> ''# Workaround for versioning''"
  by (simp add: recipe_head_def recipe_tail_def)

lemma not_release_prefix:
  "\<not> prefix ''RUN ./git-do checkout -b '' l \<Longrightarrow>
     \<not> prefix ''RUN ./git-do checkout -b release/'' l"
  by (auto simp: prefix_def)

text \<open>
  Claim C4. The full build recipe for \<open>develop\<close> and for \<open>master\<close> holds no
  workaround step: its lines are the shared head, the one checkout of the branch, and the
  shared tail. The recipe for a release tag holds, in the place of that checkout, the
  workaround comment and one pair, the checkout of \<open>release/<tag>\<close> followed by the
  checkout of \<open><tag>\<close>; no other line of any of the three recipes is a checkout
  step. Base image and tag are single-line texts.
\<close>

theorem release_workaround_pair:
  assumes "image' = ''yandasoft'' \<or> image' = ''askapsoft''"
    and "nl \<notin> set base_image" and "nl \<notin> set tag"
    and "tag \<noteq> ''develop''" and "tag \<noteq> ''master''"
  shows "map_sum id lines (make_big_yandasoft_recipe nproc base_image image' ''develop'') =
           Inr (recipe_head base_image @ [''RUN ./git-do checkout -b develop''] @
                recipe_tail nproc image' @ [[]])
    \<and> map_sum id lines (make_big_yandasoft_recipe nproc base_image image' ''master'') =
           Inr (recipe_head base_image @ [''RUN ./git-do checkout -b master''] @
                recipe_tail nproc image' @ [[]])
    \<and> map_sum id lines (make_big_yandasoft_recipe nproc base_image image' tag) =
           Inr (recipe_head base_image @
                [''# Workaround for versioning'', ''RUN ./git-do checkout -b release/'' @ tag,
                 ''RUN ./git-do checkout -b '' @ tag] @
                recipe_tail nproc image' @ [[]])
    \<and> (\<forall>l \<in> set (recipe_head base_image @ recipe_tail nproc image' @ [[]]) \<union>
              {''RUN ./git-do checkout -b develop'', ''RUN ./git-do checkout -b master''}.
          l \<noteq> ''# Workaround for versioning'' \<and>
          \<not> prefix ''RUN ./git-do checkout -b release/'' l)
    \<and> (\<forall>l \<in> set (recipe_head base_image @ recipe_tail nproc image' @ [[]]).
          \<not> prefix ''RUN ./git-do checkout -b '' l)"
proof -
  let ?co = "\<lambda>b. ''RUN ./git-do checkout -b '' @ b"
  have "list_all (\<lambda>l. nl \<notin> set l) [?co ''develop'']"
    by (simp add: nl_def)
  from head_tail_lines [OF assms(2) this, of nproc image']
  have ld: "map_sum id lines (make_big_yandasoft_recipe nproc base_image image' ''develop'') =
              Inr (recipe_head base_image @ [?co ''develop''] @ recipe_tail nproc image' @ [[]])"
    by (simp add: recipe_normal [OF assms(1)] del: append.simps append_Cons)
  have "list_all (\<lambda>l. nl \<notin> set l) [?co ''master'']"
    by (simp add: nl_def)
  from head_tail_lines [OF assms(2) this, of nproc image']
  have lm: "map_sum id lines (make_big_yandasoft_recipe nproc base_image image' ''master'') =
              Inr (recipe_head base_image @ [?co ''master''] @ recipe_tail nproc image' @ [[]])"
    by (simp add: recipe_normal [OF assms(1)] del: append.simps append_Cons)
  have "list_all (\<lambda>l. nl \<notin> set l)
          [''# Workaround for versioning'', ''RUN ./git-do checkout -b release/'' @ tag, ?co tag]"
    using assms(3) by (simp add: nl_def)
  from head_tail_lines [OF assms(2) this, of nproc image']
  have lt: "map_sum id lines (make_big_yandasoft_recipe nproc base_image image' tag) =
              Inr (recipe_head base_image @
                [''# Workaround for versioning'', ''RUN ./git-do checkout -b release/'' @ tag, ?co tag] @
                recipe_tail nproc image' @ [[]])"
    by (simp add: recipe_release [OF assms(1,4,5)] del: append.simps append_Cons)
  note nc = head_tail_no_checkout [of base_image nproc image']
  have nd: "\<forall>l \<in> set (recipe_head base_image @ recipe_tail nproc image' @ [[]]) \<union>
              {?co ''develop'', ?co ''master''}.
          l \<noteq> ''# Workaround for versioning'' \<and>
          \<not> prefix ''RUN ./git-do checkout -b release/'' l"
  proof
    fix l
    assume "l \<in> set (recipe_head base_image @ recipe_tail nproc image' @ [[]]) \<union>
              {?co ''develop'', ?co ''master''}"
    then consider "l \<in> set (recipe_head base_image @ recipe_tail nproc image' @ [[]])"
      | "l = ?co ''develop''" | "l = ?co ''master''" by blast
    then show "l \<noteq> ''# Workaround for versioning'' \<and>
          \<not> prefix ''RUN ./git-do checkout -b release/'' l"
    proof cases
      case 1
      from bspec [OF nc 1] have p: "\<not> prefix ''RUN ./git-do checkout -b '' l"
        by (rule conjunct1)
      from bspec [OF nc 1] have q: "l \<noteq> ''# Workaround for versioning''"
        by (rule conjunct2)
      from q not_release_prefix [OF p] show ?thesis by (rule conjI)
    next
      case 2
      then show ?thesis by simp
    next
      case 3
      then show ?thesis by simp
    qed
  qed
  have np: "\<forall>l \<in> set (recipe_head base_image @ recipe_tail nproc image' @ [[]]).
          \<not> prefix ''RUN ./git-do checkout -b '' l"
  proof
    fix l
    assume "l \<in> set (recipe_head base_image @ recipe_tail nproc image' @ [[]])"
    from bspec [OF nc this] show "\<not> prefix ''RUN ./git-do checkout -b '' l"
      by (rule conjunct1)
  qed
  have co: "''RUN ./git-do checkout -b '' @ ''develop'' = ''RUN ./git-do checkout -b develop''"
    "''RUN ./git-do checkout -b '' @ ''master'' = ''RUN ./git-do checkout -b master''"
    by simp_all
  from ld lm lt nd np show ?thesis unfolding co by (intro conjI)

qed

theorem release_workaround_pair_witness:
  "nl \<notin> set ''csirocass/yandabase:mpich'' \<and> nl \<notin> set ''1.2.3''
   \<and> map_sum id lines
        (make_big_yandasoft_recipe 3 ''csirocass/yandabase:mpich'' ''yandasoft'' ''develop'') =
       Inr [''# Build Yandasoft'',
            ''FROM csirocass/yandabase:mpich AS build_image '',
            ''WORKDIR /home'',
            ''RUN git clone https://gitlab.com/ASKAPSDP/all_yandasoft.git'',
            ''WORKDIR /home/all_yandasoft'',
            ''RUN ./git-do clone'',
            ''RUN ./git-do checkout -b develop'',
            ''# To fix version problem, use develop branch in askap-cmake '',
            ''WORKDIR /home/all_yandasoft/askap-cmake '',
            ''RUN git checkout develop '',
            ''WORKDIR /home/all_yandasoft '',
            ''RUN mkdir build'',
            ''WORKDIR /home/all_yandasoft/build'',
            ''RUN cmake -DCMAKE_CXX_COMPILER=mpicxx -DCMAKE_CXX_FLAGS='' @ [dquote] @
              ''-I/usr/local/include -pthread'' @ [dquote] @
              '' -DCMAKE_BUILD_TYPE=Release -DENABLE_OPENMP=YES '' @
              ''-DBUILD_ANALYSIS=OFF -DBUILD_PIPELINE=OFF -DBUILD_COMPONENTS=OFF '' @
              ''-DBUILD_SERVICES=OFF .. '' @ [bslash],
            ''    && make -j3 '' @ [bslash],
            ''    && make install'',
            '''']
   \<and> map_sum id lines
        (make_big_yandasoft_recipe 3 ''csirocass/yandabase:mpich'' ''yandasoft'' ''1.2.3'') =
       Inr [''# Build Yandasoft'',
            ''FROM csirocass/yandabase:mpich AS build_image '',
            ''WORKDIR /home'',
            ''RUN git clone https://gitlab.com/ASKAPSDP/all_yandasoft.git'',
            ''WORKDIR /home/all_yandasoft'',
            ''RUN ./git-do clone'',
            ''# Workaround for versioning'',
            ''RUN ./git-do checkout -b release/1.2.3'',
            ''RUN ./git-do checkout -b 1.2.3'',
            ''# To fix version problem, use develop branch in askap-cmake '',
            ''WORKDIR /home/all_yandasoft/askap-cmake '',
            ''RUN git checkout develop '',
            ''WORKDIR /home/all_yandasoft '',
            ''RUN mkdir build'',
            ''WORKDIR /home/all_yandasoft/build'',
            ''RUN cmake -DCMAKE_CXX_COMPILER=mpicxx -DCMAKE_CXX_FLAGS='' @ [dquote] @
              ''-I/usr/local/include -pthread'' @ [dquote] @
              '' -DCMAKE_BUILD_TYPE=Release -DENABLE_OPENMP=YES '' @
              ''-DBUILD_ANALYSIS=OFF -DBUILD_PIPELINE=OFF -DBUILD_COMPONENTS=OFF '' @
              ''-DBUILD_SERVICES=OFF .. '' @ [bslash],
            ''    && make -j3 '' @ [bslash],
            ''    && make install'',
            '''']"
  using release_workaround_pair
    [of "''yandasoft''" "''csirocass/yandabase:mpich''" "''1.2.3''" 3]
  by (simp add: nl_def recipe_head_def recipe_tail_def build_flags_def str_int_def
      str_nat.simps digit_char_def)

section \<open>Properties of the batch-file generator\<close>

lemma batch_mpi_part_bound: "batch_mpi_part_of mpi_type mpi_ver \<noteq> Inr None"
  by (simp add: batch_mpi_part_of_def)

lemma make_batch_file_never_unbound:
  "fst (make_batch_file script_file machine mpi w) \<noteq> Inl UnboundLocalError"
proof (cases "get_mpi_type_and_version mpi")
  case (Inl e)
  have "e \<noteq> UnboundLocalError"
  proof (cases mpi)
    case (VStr s)
    with Inl have "e = ValueError" by (simp only: get_mpi_raises)
    then show ?thesis by simp
  qed (use Inl in auto)
  with Inl show ?thesis by (simp add: make_batch_file_def)
next
  case (Inr r)
  obtain t n where r: "r = (t, n)" by (cases r)
  show ?thesis
  proof (cases "batch_mpi_part_of t (compose_version_number n)")
    case (Inl e)
    then have "e = ValueError" by (auto simp: batch_mpi_part_of_def split: if_splits)
    with Inl Inr r show ?thesis by (simp add: make_batch_file_def)
  next
    case part: (Inr p)
    with batch_mpi_part_bound [of t "compose_version_number n"] obtain body where "p = Some body"
      by (cases p) auto
    with part Inr r show ?thesis
      by (cases mpi) (simp_all add: make_batch_file_def Let_def)
  qed
qed

text \<open>
  Claim C1 says that for the family \<open>openmpi\<close> without a version the branch that builds
  the module and image strings is not entered, so that \<open>batch_mpi_part\<close> is unbound
  when it is used. The code enters the branch: \<open>compose_version_number\<close> returns the
  empty string for \<open>None\<close>, the test \<open>mpi_ver != None\<close> holds for every string, and a
  batch file with an empty version in the module and image names is written.
\<close>

theorem make_batch_file_openmpi_no_version:
  "get_mpi_type_and_version (VStr ''openmpi'') = Inr (''openmpi'', VNone)
   \<and> compose_version_number VNone = ''''
   \<and> batch_mpi_part_of ''openmpi'' (compose_version_number VNone) =
       Inr (Some (''module load openmpi/-ofed45-gcc\<newline>\<newline>'' @
                  ''mpirun -n 5 -oversubscribe singularity exec yandasoft-_latest.sif'' @
                  '' cimager -c dirty.in > dirty_${SLURM_JOB_ID}.log\<newline>''))
   \<and> make_batch_file ''make_docker_images.py'' ''generic'' (VStr ''openmpi'')
         \<lparr>files = Map.empty, stdout = []\<rparr> =
       (Inr (),
        \<lparr>files = [''sample-generic-openmpi.sbatch'' \<mapsto>
             batch_common_part ''make_docker_images.py'' @
             ''module load openmpi/-ofed45-gcc\<newline>\<newline>'' @
             ''mpirun -n 5 -oversubscribe singularity exec yandasoft-_latest.sif'' @
             '' cimager -c dirty.in > dirty_${SLURM_JOB_ID}.log\<newline>''],
         stdout = [''Making batch file: sample-generic-openmpi.sbatch'']\<rparr>)"
  by (simp add: batch_mpi_part_of_def make_batch_file_def print_def write_file_def Let_def)


end
